theory Spec2Isabelle
  imports Complex_Main "HOL-Library.Sublist"
begin

section \<open>Data model of the meal planner\<close>

text \<open>
  The planner of \<^verbatim>\<open>smart_ration/bot.py\<close> works on Python floats, which are IEEE
  binary64 numbers. A finite float is modelled by the real number it denotes. Every
  addition, subtraction, multiplication and division of floats in the source is followed
  by \<open>rnd64\<close>, the rounding of the exact result to the nearest double with ties to the
  even significand, and the literals \<^verbatim>\<open>1e-9\<close> and \<^verbatim>\<open>1e-6\<close> are the doubles nearest
  to these fractions. Infinities and NaN have no
  counterpart: a run in which an intermediate result leaves the range of the doubles is
  outside the model. The conversion of an integer to a float raises \<^verbatim>\<open>OverflowError\<close>
  when the integer is too large.
\<close>

datatype error = ZeroDivisionError | KeyError | OverflowError

record Product =
  name :: string
  calories :: real
  protein :: real
  fat :: real
  carbs :: real

text \<open>\<^verbatim>\<open>PRODUCTS_DB\<close> is a dictionary filled from a JSON file that is not part of the
  sources; it is a parameter \<open>db\<close> of every function that reads it, as an association
  list in the dictionary's enumeration order.\<close>

type_synonym catalog = "(string \<times> Product) list"

type_synonym bucket = "(string \<times> real) list"

record MealPlan =
  breakfast :: bucket
  snack :: bucket
  lunch :: bucket
  dinner :: bucket
  second_snack :: "bucket option"

section \<open>Rounding to binary64\<close>

text \<open>
  The unit in the last place of a positive real \<open>x\<close>: the power of two \<open>u\<close> with
  \<open>2 ^ 52 * u \<le> x < 2 ^ 53 * u\<close>, and \<open>1 / 2 ^ 1074\<close> for the subnormal numbers. It is found by
  doubling from \<open>1 / 2 ^ 52\<close> when \<open>1 \<le> x\<close>, and by halving from \<open>1 / 2 ^ 53\<close>, at most 1021
  times, when \<open>x < 1\<close>.
\<close>

partial_function (option) ulp_up :: "real \<Rightarrow> real \<Rightarrow> real option" where
  "ulp_up x u = (if x < 2 ^ 53 * u then Some u else ulp_up x (2 * u))"

partial_function (option) ulp_down :: "real \<Rightarrow> real \<Rightarrow> nat \<Rightarrow> real option" where
  "ulp_down x u n = (if 2 ^ 52 * u \<le> x \<or> n = 0 then Some u else ulp_down x (u / 2) (n - 1))"

definition ulp :: "real \<Rightarrow> real option" where
  "ulp x = (if 1 \<le> x then ulp_up x (1 / 2 ^ 52) else ulp_down x (1 / 2 ^ 53) 1021)"

text \<open>The nearest integer, a tie going to the even one.\<close>

definition round_even :: "real \<Rightarrow> int" where
  "round_even y =
     (let f = \<lfloor>y\<rfloor>; d = y - of_int f
      in if d < 1 / 2 then f else if 1 / 2 < d then f + 1 else if even f then f else f + 1)"

text \<open>The double nearest to \<open>x\<close>: the multiple of the unit in the last place of \<open>x\<close> that
  is nearest to \<open>x\<close>. The search for the unit always ends (lemma \<open>ulp_total\<close> below), so the
  case \<open>None\<close> does not occur.\<close>

definition rnd64 :: "real \<Rightarrow> real" where
  "rnd64 x =
     (if x = 0 then 0
      else case ulp \<bar>x\<bar> of
             None \<Rightarrow> 0
           | Some u \<Rightarrow> sgn x * (of_int (round_even (\<bar>x\<bar> / u)) * u))"

text \<open>\<^verbatim>\<open>float(n)\<close> for a Python integer \<open>n\<close>, also where an integer meets a float in a
  division: the nearest double, and \<^verbatim>\<open>OverflowError\<close> from \<open>2 ^ 1024 - 2 ^ 970\<close> on, where
  the nearest double would be \<open>2 ^ 1024\<close>.\<close>

definition float_of_int :: "int \<Rightarrow> error + real" where
  "float_of_int n =
     (if 2 ^ 1024 - 2 ^ 970 \<le> \<bar>real_of_int n\<bar> then Inl OverflowError
      else Inr (rnd64 (real_of_int n)))"

text \<open>The float literals \<^verbatim>\<open>1e-9\<close> and \<^verbatim>\<open>1e-6\<close>.\<close>

definition float_1e_9 :: real where
  "float_1e_9 = rnd64 (1 / 10 ^ 9)"

definition float_1e_6 :: real where
  "float_1e_6 = rnd64 (1 / 10 ^ 6)"

section \<open>Splitting one day over the meals\<close>

text \<open>The loop of \<^verbatim>\<open>distribute_products\<close> over the products, with its five lists as
  the accumulator. The division \<^verbatim>\<open>total_weight / meals_count\<close> of a float by an integer
  first converts the integer, which raises when it is too large, and then raises when
  the divisor is zero.\<close>

fun distribute_loop ::
  "bucket \<Rightarrow> int \<Rightarrow> bucket \<times> bucket \<times> bucket \<times> bucket \<times> bucket
     \<Rightarrow> error + bucket \<times> bucket \<times> bucket \<times> bucket \<times> bucket" where
  "distribute_loop [] meals_count acc = Inr acc"
| "distribute_loop ((product_name, total_weight) # rest) meals_count (b, s, l, d, ss) =
     (case float_of_int meals_count of
        Inl e \<Rightarrow> Inl e
      | Inr divisor \<Rightarrow>
          if divisor = 0 then Inl ZeroDivisionError
          else let weight_per_meal = rnd64 (total_weight / divisor) in
            distribute_loop rest meals_count
              (b @ [(product_name, weight_per_meal)],
               s @ [(product_name, weight_per_meal)],
               l @ [(product_name, weight_per_meal)],
               d @ [(product_name, weight_per_meal)],
               if meals_count = 5 then ss @ [(product_name, weight_per_meal)] else ss))"

definition distribute_products :: "bucket \<Rightarrow> int \<Rightarrow> error + MealPlan" where
  "distribute_products products meals_count =
     (if products = [] then
        Inr \<lparr>breakfast = [], snack = [], lunch = [], dinner = [], second_snack = None\<rparr>
      else case distribute_loop products meals_count ([], [], [], [], []) of
        Inl e \<Rightarrow> Inl e
      | Inr (b, s, l, d, ss) \<Rightarrow>
          Inr \<lparr>breakfast = b, snack = s, lunch = l, dinner = d,
               second_snack = (if meals_count = 5 then Some ss else None)\<rparr>)"

section \<open>Resolving a product name to an energy density\<close>

text \<open>Python's \<^verbatim>\<open>a in b\<close> on strings: \<open>a\<close> occurs in \<open>b\<close> as a contiguous block.\<close>

fun starts_with :: "string \<Rightarrow> string \<Rightarrow> bool" where
  "starts_with [] ys = True"
| "starts_with (x # xs) [] = False"
| "starts_with (x # xs) (y # ys) = (x = y \<and> starts_with xs ys)"

fun str_in :: "string \<Rightarrow> string \<Rightarrow> bool" where
  "str_in xs [] = (xs = [])"
| "str_in xs (y # ys) = (starts_with xs (y # ys) \<or> str_in xs ys)"

text \<open>The scan of \<^verbatim>\<open>find_similar_product\<close> over the catalog keys.\<close>

fun scan_keys :: "string \<Rightarrow> string list \<Rightarrow> string option" where
  "scan_keys q [] = None"
| "scan_keys q (db_name # ks) =
     (if str_in q db_name \<or> str_in db_name q then Some db_name else scan_keys q ks)"

text \<open>\<^verbatim>\<open>str.lower\<close> acts on Unicode code points; it is the parameter \<open>lower\<close>, of which
  nothing is assumed.\<close>

definition find_similar_product ::
  "(string \<Rightarrow> string) \<Rightarrow> catalog \<Rightarrow> string \<Rightarrow> string option" where
  "find_similar_product lower db product_name =
     (let product_name_lower = lower product_name in
      if product_name_lower \<in> set (map fst db) then Some product_name_lower
      else scan_keys product_name_lower (map fst db))"

text \<open>\<^verbatim>\<open>calories_per_gram\<close>, the helper inside \<^verbatim>\<open>create_multi_day_plan\<close>. The test
  \<^verbatim>\<open>if db_product_name:\<close> is false for \<^verbatim>\<open>None\<close> and for the empty string.\<close>

definition calories_per_gram ::
  "(string \<Rightarrow> string) \<Rightarrow> catalog \<Rightarrow> string \<Rightarrow> error + real" where
  "calories_per_gram lower db product_name =
     (case find_similar_product lower db product_name of
        None \<Rightarrow> Inr (rnd64 (100 / 100))
      | Some db_product_name \<Rightarrow>
          if db_product_name \<noteq> [] then
            (case map_of db db_product_name of
               None \<Rightarrow> Inl KeyError
             | Some product \<Rightarrow> Inr (rnd64 (calories product / 100)))
          else Inr (rnd64 (100 / 100)))"

text \<open>A lower-casing of the ASCII letters, for running the functions on examples.\<close>

definition ascii_lower :: "string \<Rightarrow> string" where
  "ascii_lower s =
     map (\<lambda>c. if 65 \<le> (of_char c :: nat) \<and> (of_char c :: nat) \<le> 90
              then (case c of Char b0 b1 b2 b3 b4 b5 b6 b7 \<Rightarrow> Char b0 b1 b2 b3 b4 True b6 b7)
              else c) s"

section \<open>The multi-day planner\<close>

text \<open>One entry of the list \<^verbatim>\<open>remaining\<close> of \<^verbatim>\<open>create_multi_day_plan\<close>: a dictionary
  with the keys \<^verbatim>\<open>name\<close>, \<^verbatim>\<open>weight\<close> and \<^verbatim>\<open>kcal_per_g\<close>.\<close>

record item =
  name :: string
  weight :: real
  kcal_per_g :: real

text \<open>The list comprehension that builds \<^verbatim>\<open>remaining\<close>: products whose weight is not
  positive are left out; a failing density lookup would abort the comprehension.\<close>

fun make_remaining ::
  "(string \<Rightarrow> string) \<Rightarrow> catalog \<Rightarrow> bucket \<Rightarrow> error + item list" where
  "make_remaining lower db [] = Inr []"
| "make_remaining lower db ((nm, w) # rest) =
     (if w > 0 then
        (case calories_per_gram lower db nm of
           Inl e \<Rightarrow> Inl e
         | Inr k \<Rightarrow>
             (case make_remaining lower db rest of
                Inl e \<Rightarrow> Inl e
              | Inr r \<Rightarrow> Inr (\<lparr>name = nm, weight = w, kcal_per_g = k\<rparr> # r)))
      else make_remaining lower db rest)"

text \<open>\<^verbatim>\<open>sum(item["weight"] * item["kcal_per_g"] for item in remaining)\<close>: the terms
  are added from left to right, starting from the integer 0. (From version 3.12 on,
  CPython's \<^verbatim>\<open>sum\<close> carries a compensation term for floats; for one or two terms the
  result is the same.)\<close>

definition total_kcal :: "item list \<Rightarrow> real" where
  "total_kcal remaining =
     foldl (\<lambda>acc it. rnd64 (acc + rnd64 (weight it * kcal_per_g it))) 0 remaining"

text \<open>
  The dictionary \<^verbatim>\<open>assigned_grams\<close> is created with one key per name of
  \<^verbatim>\<open>remaining\<close> and the value \<^verbatim>\<open>0.0\<close>, and is only ever written at such names. It is
  modelled as a function from names to grams that is \<open>0\<close> wherever nothing was written
  (which is also what \<^verbatim>\<open>assigned_grams.get(name, 0.0)\<close> reads); its keys are the names
  of \<^verbatim>\<open>remaining\<close>, each once, in order of first occurrence.
\<close>

text \<open>The proportional pass: the first \<^verbatim>\<open>for item in remaining\<close> loop.\<close>

fun proportional :: "real \<Rightarrow> real \<Rightarrow> item list \<Rightarrow> (string \<Rightarrow> real) \<Rightarrow> (string \<Rightarrow> real)" where
  "proportional target_kcal total_remaining_kcal [] assigned = assigned"
| "proportional target_kcal total_remaining_kcal (it # rest) assigned =
     (if weight it \<le> float_1e_9 then
        proportional target_kcal total_remaining_kcal rest assigned
      else
        let share_kcal =
              rnd64 (target_kcal
                     * rnd64 (rnd64 (weight it * kcal_per_g it) / total_remaining_kcal));
            grams = min (weight it) (rnd64 (share_kcal / max (kcal_per_g it) float_1e_9))
        in if grams > 0 then
             proportional target_kcal total_remaining_kcal rest
               (assigned(name it := rnd64 (assigned (name it) + grams)))
           else proportional target_kcal total_remaining_kcal rest assigned)"

text \<open>
  The sum \<^verbatim>\<open>day_kcal\<close> runs over the keys of \<^verbatim>\<open>assigned_grams\<close> and multiplies each
  value by the \<^verbatim>\<open>kcal_per_g\<close> of the first entry of \<^verbatim>\<open>remaining\<close> with that name. The
  recursion below walks \<^verbatim>\<open>remaining\<close> and skips the names it has already seen, which
  visits exactly those keys with exactly those entries, and adds from left to right.
\<close>

fun day_kcal_sum :: "(string \<Rightarrow> real) \<Rightarrow> item list \<Rightarrow> string list \<Rightarrow> real \<Rightarrow> real" where
  "day_kcal_sum assigned [] seen acc = acc"
| "day_kcal_sum assigned (it # rest) seen acc =
     (if name it \<in> set seen then day_kcal_sum assigned rest seen acc
      else day_kcal_sum assigned rest (name it # seen)
             (rnd64 (acc + rnd64 (assigned (name it) * kcal_per_g it))))"

text \<open>The residual fill: the second \<^verbatim>\<open>for item in remaining\<close> loop, with its
  \<^verbatim>\<open>break\<close>. It returns the dictionary and what is left of \<^verbatim>\<open>residual_kcal\<close>.\<close>

fun top_up :: "item list \<Rightarrow> (string \<Rightarrow> real) \<Rightarrow> real \<Rightarrow> (string \<Rightarrow> real) \<times> real" where
  "top_up [] assigned residual_kcal = (assigned, residual_kcal)"
| "top_up (it # rest) assigned residual_kcal =
     (if residual_kcal \<le> float_1e_6 then (assigned, residual_kcal)
      else if weight it \<le> float_1e_9 then top_up rest assigned residual_kcal
      else
        let kcal = max (kcal_per_g it) float_1e_9;
            current_assigned = assigned (name it);
            can_add_grams = max 0 (rnd64 (weight it - current_assigned));
            add_grams = min can_add_grams (rnd64 (residual_kcal / kcal))
        in if add_grams > 0 then
             top_up rest (assigned(name it := rnd64 (current_assigned + add_grams)))
               (rnd64 (residual_kcal - rnd64 (add_grams * kcal)))
           else top_up rest assigned residual_kcal)"

text \<open>The write-off: the last \<^verbatim>\<open>for item in remaining\<close> loop. It returns the day's
  products and the list \<^verbatim>\<open>remaining\<close> with the weights reduced; the subtraction
  \<^verbatim>\<open>item["weight"] -= grams\<close> rounds.\<close>

fun write_off :: "(string \<Rightarrow> real) \<Rightarrow> item list \<Rightarrow> bucket \<times> item list" where
  "write_off assigned [] = ([], [])"
| "write_off assigned (it # rest) =
     (let grams = max 0 (min (assigned (name it)) (weight it));
          (day_products, rest') = write_off assigned rest
      in if grams > 0 then
           ((name it, grams) # day_products,
            it\<lparr>weight := (if rnd64 (weight it - grams) < float_1e_9 then 0
                          else rnd64 (weight it - grams))\<rparr>
              # rest')
         else (day_products, it # rest'))"

text \<open>One pass through the body of the \<^verbatim>\<open>while\<close> loop, after its \<^verbatim>\<open>break\<close> test. The
  division \<^verbatim>\<open>target_kcal / day_kcal\<close> raises when \<^verbatim>\<open>day_kcal\<close> is zero.\<close>

definition plan_day :: "real \<Rightarrow> item list \<Rightarrow> error + bucket \<times> item list" where
  "plan_day cap_per_day remaining =
     (let total_remaining_kcal = total_kcal remaining;
          target_kcal = min cap_per_day total_remaining_kcal;
          assigned = proportional target_kcal total_remaining_kcal remaining (\<lambda>_. 0);
          day_kcal = day_kcal_sum assigned remaining [] 0
      in if day_kcal > rnd64 (target_kcal + float_1e_6) then
           (if day_kcal = 0 then Inl ZeroDivisionError
            else let scale = rnd64 (target_kcal / day_kcal)
                 in Inr (write_off (\<lambda>n. rnd64 (assigned n * scale)) remaining))
         else
           let residual_kcal = max 0 (rnd64 (target_kcal - day_kcal))
           in if residual_kcal > float_1e_6 then
                Inr (write_off (fst (top_up remaining assigned residual_kcal)) remaining)
              else Inr (write_off assigned remaining))"

text \<open>The loop stops when no weight exceeds \<^verbatim>\<open>1e-9\<close>, or by its \<^verbatim>\<open>break\<close>.\<close>

definition loop_done :: "item list \<Rightarrow> bool" where
  "loop_done remaining =
     (\<not> list_ex (\<lambda>it. weight it > float_1e_9) remaining \<or> total_kcal remaining \<le> float_1e_9)"

text \<open>The \<^verbatim>\<open>while\<close> loop. Nothing in the source bounds its iterations, so it is a
  partial function: \<open>None\<close> is a run that never leaves the loop.\<close>

partial_function (option) plan_loop ::
  "real \<Rightarrow> item list \<Rightarrow> bucket list \<Rightarrow> (error + bucket list) option" where
  "plan_loop cap_per_day remaining days =
     (if loop_done remaining then Some (Inr days)
      else case plan_day cap_per_day remaining of
             Inl e \<Rightarrow> Some (Inl e)
           | Inr (day_products, remaining') \<Rightarrow>
               plan_loop cap_per_day remaining' (days @ [day_products]))"

text \<open>The list \<^verbatim>\<open>days\<close> that \<^verbatim>\<open>create_multi_day_plan\<close> has built when the loop ends.
  \<^verbatim>\<open>cap_per_day = float(daily_calories + calorie_excess_cap)\<close> is computed after
  \<^verbatim>\<open>remaining\<close>.\<close>

definition day_buckets ::
  "(string \<Rightarrow> string) \<Rightarrow> catalog \<Rightarrow> bucket \<Rightarrow> int \<Rightarrow> int \<Rightarrow> (error + bucket list) option" where
  "day_buckets lower db products daily_calories calorie_excess_cap =
     (case make_remaining lower db products of
        Inl e \<Rightarrow> Some (Inl e)
      | Inr remaining \<Rightarrow>
          (case float_of_int (daily_calories + calorie_excess_cap) of
             Inl e \<Rightarrow> Some (Inl e)
           | Inr cap_per_day \<Rightarrow> plan_loop cap_per_day remaining []))"

text \<open>The closing loop that turns every day into a \<^verbatim>\<open>MealPlan\<close>.\<close>

fun distribute_days :: "bucket list \<Rightarrow> int \<Rightarrow> error + MealPlan list" where
  "distribute_days [] meals_count = Inr []"
| "distribute_days (day_products # rest) meals_count =
     (case distribute_products day_products meals_count of
        Inl e \<Rightarrow> Inl e
      | Inr plan \<Rightarrow>
          (case distribute_days rest meals_count of
             Inl e \<Rightarrow> Inl e
           | Inr plans \<Rightarrow> Inr (plan # plans)))"

definition create_multi_day_plan ::
  "(string \<Rightarrow> string) \<Rightarrow> catalog \<Rightarrow> bucket \<Rightarrow> int \<Rightarrow> int \<Rightarrow> int
     \<Rightarrow> (error + MealPlan list) option" where
  "create_multi_day_plan lower db products daily_calories meals_count calorie_excess_cap =
     (case day_buckets lower db products daily_calories calorie_excess_cap of
        None \<Rightarrow> None
      | Some (Inl e) \<Rightarrow> Some (Inl e)
      | Some (Inr days) \<Rightarrow> Some (distribute_days days meals_count))"

text \<open>The state of the loop after at most \<open>n\<close> passes: the run stays where it is once
  the loop has ended. This unrolls \<^const>\<open>plan_loop\<close> and is total, so it also speaks
  about runs that never end.\<close>

fun passes :: "nat \<Rightarrow> real \<Rightarrow> item list \<Rightarrow> bucket list \<Rightarrow> error + item list \<times> bucket list" where
  "passes 0 cap_per_day remaining days = Inr (remaining, days)"
| "passes (Suc n) cap_per_day remaining days =
     (if loop_done remaining then Inr (remaining, days)
      else case plan_day cap_per_day remaining of
             Inl e \<Rightarrow> Inl e
           | Inr (day_products, remaining') \<Rightarrow>
               passes n cap_per_day remaining' (days @ [day_products]))"

section \<open>Auxiliary definitions for the statements\<close>

text \<open>A small catalog for running the functions, with the densities of the two products of
  the documented scenarios.\<close>

definition example_db :: catalog where
  "example_db =
     [(''rice'', \<lparr>Product.name = ''Rice'', calories = 344, protein = 7, fat = 1, carbs = 78\<rparr>),
      (''chicken'', \<lparr>Product.name = ''Chicken'', calories = 165, protein = 31, fat = 36 / 10, carbs = 0\<rparr>)]"

text \<open>A catalog whose only key is the empty string.\<close>

definition empty_key_db :: catalog where
  "empty_key_db = [('''', \<lparr>Product.name = '''', calories = 50, protein = 0, fat = 0, carbs = 0\<rparr>)]"


text \<open>Every product of a day at its weight divided by the number of meals, and by a
  divisor that is already a float.\<close>

definition per_meal :: "bucket \<Rightarrow> int \<Rightarrow> bucket" where
  "per_meal products meals_count =
     map (\<lambda>(n, w). (n, rnd64 (w / real_of_int meals_count))) products"

definition portions :: "bucket \<Rightarrow> real \<Rightarrow> bucket" where
  "portions products divisor = map (\<lambda>(n, w). (n, rnd64 (w / divisor))) products"

text \<open>The grams that the write-off charges to an entry, and the weight it leaves.\<close>

definition charged :: "(string \<Rightarrow> real) \<Rightarrow> item \<Rightarrow> real" where
  "charged assigned it = max 0 (min (assigned (name it)) (weight it))"

definition settle :: "real \<Rightarrow> real" where
  "settle w = (if w < float_1e_9 then 0 else w)"

text \<open>All entries of all slots of a meal plan.\<close>

definition slot_entries :: "MealPlan \<Rightarrow> (string \<times> real) set" where
  "slot_entries plan =
     set (breakfast plan) \<union> set (snack plan) \<union> set (lunch plan) \<union> set (dinner plan)
     \<union> (case second_snack plan of None \<Rightarrow> {} | Some ss \<Rightarrow> set ss)"

text \<open>The list \<^verbatim>\<open>remaining\<close> for 100 g of rice.\<close>

definition rice_only :: "item list" where
  "rice_only = [\<lparr>name = ''rice'', weight = 100, kcal_per_g = rnd64 (344 / 100)\<rparr>]"






text \<open>The doubles: zero and the multiples \<open>n u\<close> of a unit \<open>u = 2 ^ k / 2 ^ 1074\<close> with
  \<open>2 ^ 52 * u \<le> n * u < 2 ^ 53 * u\<close>, or below \<open>2 ^ 53 * u\<close> for the smallest unit.\<close>

definition min_unit :: real where
  "min_unit = 1 / 2 ^ 1074"

definition grid_unit :: "real \<Rightarrow> bool" where
  "grid_unit u = (\<exists>k::nat. u = 2 ^ k * min_unit)"

definition is_double :: "real \<Rightarrow> bool" where
  "is_double w =
     (w = 0 \<or> (\<exists>u n. grid_unit u \<and> \<bar>w\<bar> = of_int n * u \<and> \<bar>w\<bar> < 2 ^ 53 * u
                   \<and> (2 ^ 52 * u \<le> \<bar>w\<bar> \<or> u = min_unit)))"

section \<open>Properties of the rounding\<close>

lemma min_unit_pos: "0 < min_unit"
  by (simp add: min_unit_def)

lemma grid_unit_pos: "grid_unit u \<Longrightarrow> 0 < u"
  using min_unit_pos by (auto simp: grid_unit_def)

lemma grid_unit_min: "grid_unit min_unit"
  unfolding grid_unit_def by (rule exI [of _ 0]) simp

lemma grid_unit_double: "grid_unit u \<Longrightarrow> grid_unit (2 * u)"
proof -
  assume "grid_unit u"
  then obtain k :: nat where "u = 2 ^ k * min_unit" unfolding grid_unit_def by blast
  then have "2 * u = 2 ^ Suc k * min_unit" by simp
  then show "grid_unit (2 * u)" unfolding grid_unit_def by blast
qed

lemma grid_unit_le:
  assumes "grid_unit u" and "grid_unit v" and "u \<le> v"
  shows "\<exists>d::nat. v = u * 2 ^ d"
proof -
  from assms(1,2) obtain k l :: nat where u: "u = 2 ^ k * min_unit" and v: "v = 2 ^ l * min_unit"
    unfolding grid_unit_def by blast
  from assms(3) have "(2::real) ^ k \<le> 2 ^ l"
    unfolding u v using min_unit_pos by (simp only: mult_le_cancel_right_pos)
  then have "k \<le> l" by simp
  then have "(2::real) ^ l = 2 ^ k * 2 ^ (l - k)" by (simp flip: power_add)
  then have "v = u * 2 ^ (l - k)" unfolding u v by simp
  then show ?thesis by blast
qed

lemma grid_unit_less_double:
  assumes "grid_unit u" and "grid_unit v" and "u < 2 * v"
  shows "u \<le> v"
proof -
  from assms(1,2) obtain k l :: nat where u: "u = 2 ^ k * min_unit" and v: "v = 2 ^ l * min_unit"
    unfolding grid_unit_def by blast
  from assms(3) have "2 ^ k * min_unit < 2 ^ Suc l * min_unit" unfolding u v by simp
  then have "(2::real) ^ k < 2 ^ Suc l"
    using min_unit_pos by (simp only: mult_less_cancel_right_pos)
  then have "k < Suc l" by (rule power_less_imp_less_exp [rotated]) simp
  then have "k \<le> l" by simp
  then have "(2::real) ^ k \<le> 2 ^ l" by simp
  then show ?thesis unfolding u v using min_unit_pos by (simp only: mult_le_cancel_right_pos)
qed

lemma grid_unit_start_up: "grid_unit (1 / 2 ^ 52)"
proof -
  have "(2::real) ^ 1074 = 2 ^ 1022 * 2 ^ 52" by (simp only: flip: power_add) simp
  then have "1 / 2 ^ 52 = 2 ^ 1022 * min_unit" unfolding min_unit_def by simp
  then show ?thesis unfolding grid_unit_def by blast
qed

lemma grid_unit_start_down: "1 / 2 ^ 53 = 2 ^ 1021 * min_unit"
proof -
  have "(2::real) ^ 1074 = 2 ^ 1021 * 2 ^ 53" by (simp only: flip: power_add) simp
  then show ?thesis unfolding min_unit_def by simp
qed


lemma ulp_up_sound:
  assumes "ulp_up x u = Some v" and "grid_unit u" and "2 ^ 52 * u \<le> x"
  shows "grid_unit v \<and> 2 ^ 52 * v \<le> x \<and> x < 2 ^ 53 * v"
proof -
  have "grid_unit u \<longrightarrow> 2 ^ 52 * u \<le> x \<longrightarrow> grid_unit v \<and> 2 ^ 52 * v \<le> x \<and> x < 2 ^ 53 * v"
    if "ulp_up x u = Some v" for x u v
    using that
  proof (rule ulp_up.raw_induct [of _ "(x, u)" v, unfolded prod.case, rotated], goal_cases)
    case (1 f x u v)
    show ?case
    proof (intro impI)
      assume g: "grid_unit u" and lo: "2 ^ 52 * u \<le> x"
      show "grid_unit v \<and> 2 ^ 52 * v \<le> x \<and> x < 2 ^ 53 * v"
      proof (cases "x < 2 ^ 53 * u")
        case True
        with 1(2) have "v = u" by simp
        with g lo True show ?thesis by simp
      next
        case False
        with 1(2) have call: "f x (2 * u) = Some v" by simp
        from False have "2 ^ 52 * (2 * u) \<le> x" by simp
        with 1(1) [OF call] grid_unit_double [OF g] show ?thesis by blast
      qed
    qed
  qed
  with assms show ?thesis by blast
qed

lemma ulp_down_sound:
  assumes "ulp_down x u n = Some v" and "u = 2 ^ n * min_unit" and "x < 2 ^ 53 * u"
  shows "grid_unit v \<and> x < 2 ^ 53 * v \<and> (2 ^ 52 * v \<le> x \<or> v = min_unit)"
proof -
  have "u = 2 ^ n * min_unit \<longrightarrow> x < 2 ^ 53 * u
          \<longrightarrow> grid_unit v \<and> x < 2 ^ 53 * v \<and> (2 ^ 52 * v \<le> x \<or> v = min_unit)"
    if "ulp_down x u n = Some v" for x u n v
    using that
  proof (rule ulp_down.raw_induct [of _ "((x, u), n)" v, unfolded prod.case, rotated], goal_cases)
    case (1 f x u n v)
    show ?case
    proof (intro impI)
      assume u: "u = 2 ^ n * min_unit" and hi: "x < 2 ^ 53 * u"
      from u have g: "grid_unit u" unfolding grid_unit_def by blast
      show "grid_unit v \<and> x < 2 ^ 53 * v \<and> (2 ^ 52 * v \<le> x \<or> v = min_unit)"
      proof (cases "2 ^ 52 * u \<le> x \<or> n = 0")
        case True
        with 1(2) have v: "v = u" by simp
        from True u have "2 ^ 52 * u \<le> x \<or> u = min_unit" by auto
        with g hi show ?thesis unfolding v by blast
      next
        case False
        with 1(2) have call: "f x (u / 2) (n - 1) = Some v" by simp
        from False obtain m where n: "n = Suc m" by (cases n) auto
        from u have half: "u / 2 = 2 ^ (n - 1) * min_unit" unfolding n by simp
        from False have "x < 2 ^ 53 * (u / 2)" by simp
        with 1(1) [OF call] half show ?thesis by blast
      qed
    qed
  qed
  with assms show ?thesis by blast
qed

lemma ulp_sound:
  assumes "ulp x = Some u" and "0 < x"
  shows "grid_unit u \<and> x < 2 ^ 53 * u \<and> (2 ^ 52 * u \<le> x \<or> u = min_unit)"
proof (cases "1 \<le> x")
  case True
  with assms(1) have "ulp_up x (1 / 2 ^ 52) = Some u" by (simp add: ulp_def)
  from ulp_up_sound [OF this grid_unit_start_up] True show ?thesis by simp
next
  case False
  with assms(1) have "ulp_down x (1 / 2 ^ 53) 1021 = Some u" by (simp add: ulp_def)
  from ulp_down_sound [OF this grid_unit_start_down] False show ?thesis by simp
qed

lemma ulp_up_total:
  assumes "0 < u"
  shows "\<exists>v. ulp_up x u = Some v"
proof -
  have step: "\<exists>v. ulp_up x u = Some v" if "0 < u" and "x < 2 ^ 53 * u * 2 ^ m" for u m
    using that
  proof (induction m arbitrary: u)
    case 0
    then show ?case by (subst ulp_up.simps) simp
  next
    case (Suc m)
    show ?case
    proof (cases "x < 2 ^ 53 * u")
      case True
      then show ?thesis by (subst ulp_up.simps) simp
    next
      case False
      from Suc.prems have "0 < 2 * u" and "x < 2 ^ 53 * (2 * u) * 2 ^ m" by simp_all
      from Suc.IH [OF this] False show ?thesis by (subst ulp_up.simps) simp
    qed
  qed
  from assms have pos: "0 < 2 ^ 53 * u" by simp
  obtain m :: nat where "x / (2 ^ 53 * u) < 2 ^ m"
    using real_arch_pow [of 2 "x / (2 ^ 53 * u)"] by auto
  with pos have "x < 2 ^ m * (2 ^ 53 * u)" by (simp only: pos_divide_less_eq)
  then have "x < 2 ^ 53 * u * 2 ^ m" by (simp only: mult.commute)
  from step [OF assms this] show ?thesis .
qed

lemma ulp_down_total: "\<exists>v. ulp_down x u n = Some v"
proof (induction n arbitrary: u)
  case 0
  show ?case by (subst ulp_down.simps) simp
next
  case (Suc n)
  from Suc [of "u / 2"] show ?case by (subst ulp_down.simps) simp
qed

lemma ulp_total: "\<exists>u. ulp x = Some u"
  unfolding ulp_def using ulp_up_total [of "1 / 2 ^ 52" x] ulp_down_total [of x "1 / 2 ^ 53" 1021]
  by simp


lemma grid_unit_ge_min: "grid_unit u \<Longrightarrow> min_unit \<le> u"
proof -
  assume "grid_unit u"
  then obtain k :: nat where u: "u = 2 ^ k * min_unit" unfolding grid_unit_def by blast
  have "1 * min_unit \<le> 2 ^ k * min_unit"
    using min_unit_pos by (intro mult_right_mono) simp_all
  then show ?thesis unfolding u by simp
qed

lemma round_even_lower: "\<lfloor>y\<rfloor> \<le> round_even y"
  by (simp add: round_even_def Let_def)


lemma round_even_ge: "of_int M \<le> y \<Longrightarrow> M \<le> round_even y"
proof -
  assume "of_int M \<le> y"
  then have "M \<le> \<lfloor>y\<rfloor>" by (simp add: le_floor_iff)
  with round_even_lower [of y] show ?thesis by linarith
qed


lemma rnd64_pos_unfold:
  assumes "0 < x" and "ulp x = Some u"
  shows "rnd64 x = of_int (round_even (x / u)) * u"
  using assms by (simp add: rnd64_def)

lemma rnd64_nonneg:
  assumes "0 \<le> x"
  shows "0 \<le> rnd64 x"
proof (cases "x = 0")
  case True
  then show ?thesis by (simp add: rnd64_def)
next
  case False
  with assms have pos: "0 < x" by simp
  obtain u where u: "ulp x = Some u" using ulp_total by blast
  from ulp_sound [OF u pos] have up: "0 < u" using grid_unit_pos by blast
  from pos up have "of_int 0 \<le> x / u" by simp
  then have "0 \<le> round_even (x / u)" by (rule round_even_ge)
  with up show ?thesis unfolding rnd64_pos_unfold [OF pos u] by simp
qed

lemma is_doubleD:
  assumes "is_double w" and "0 < w"
  obtains u n where "grid_unit u" and "w = of_int n * u" and "w < 2 ^ 53 * u"
    and "2 ^ 52 * u \<le> w \<or> u = min_unit"
proof -
  from assms(2) have nz: "w \<noteq> 0" and a: "\<bar>w\<bar> = w" by simp_all
  from assms(1) nz obtain u n where "grid_unit u" and "\<bar>w\<bar> = of_int n * u"
    and "\<bar>w\<bar> < 2 ^ 53 * u" and "2 ^ 52 * u \<le> \<bar>w\<bar> \<or> u = min_unit"
    unfolding is_double_def by blast
  then show thesis unfolding a by (rule that)
qed


lemma rnd64_ge:
  assumes dw: "is_double w" and w0: "0 \<le> w" and wx: "w \<le> x"
  shows "w \<le> rnd64 x"
proof (cases "w = 0")
  case True
  with w0 wx rnd64_nonneg [of x] show ?thesis by simp
next
  case False
  with w0 have wpos: "0 < w" by simp
  with wx have pos: "0 < x" by simp
  obtain ux where ux: "ulp x = Some ux" using ulp_total by blast
  from ulp_sound [OF ux pos] have gx: "grid_unit ux" and lx: "2 ^ 52 * ux \<le> x \<or> ux = min_unit"
    by blast+
  from gx have uxp: "0 < ux" by (rule grid_unit_pos)
  from dw wpos obtain uw n where gw: "grid_unit uw" and wn: "w = of_int n * uw"
    and hw: "w < 2 ^ 53 * uw"
    by (rule is_doubleD)
  show ?thesis
  proof (cases "ux \<le> uw")
    case True
    from grid_unit_le [OF gx gw True] obtain d :: nat where d: "uw = ux * 2 ^ d" by blast
    have w: "w = of_int (n * 2 ^ d) * ux" unfolding wn d by simp
    from wx uxp have "of_int (n * 2 ^ d) \<le> x / ux" unfolding w by (simp add: pos_le_divide_eq)
    then have "n * 2 ^ d \<le> round_even (x / ux)" by (rule round_even_ge)
    then have "(of_int (n * 2 ^ d) :: real) \<le> of_int (round_even (x / ux))"
      by (simp only: of_int_le_iff)
    with uxp have "of_int (n * 2 ^ d) * ux \<le> of_int (round_even (x / ux)) * ux"
      by (simp only: mult_le_cancel_right_pos)
    then show ?thesis unfolding rnd64_pos_unfold [OF pos ux] w .
  next
    case False
    with grid_unit_less_double [OF gx gw] have big: "2 * uw \<le> ux" by fastforce
    from False grid_unit_ge_min [OF gw] have "ux \<noteq> min_unit" by simp
    with lx have "2 ^ 52 * ux \<le> x" by simp
    with uxp have "of_int (2 ^ 52) \<le> x / ux" by (simp add: pos_le_divide_eq)
    then have "2 ^ 52 \<le> round_even (x / ux)" by (rule round_even_ge)
    then have "(of_int (2 ^ 52) :: real) \<le> of_int (round_even (x / ux))"
      by (simp only: of_int_le_iff)
    with uxp have "of_int (2 ^ 52) * ux \<le> of_int (round_even (x / ux)) * ux"
      by (simp only: mult_le_cancel_right_pos)
    moreover from hw big have "w \<le> of_int (2 ^ 52) * ux" by simp
    ultimately show ?thesis unfolding rnd64_pos_unfold [OF pos ux] by simp
  qed
qed

lemma is_double_one: "is_double 1"
proof -
  have "grid_unit (1 / 2 ^ 52) \<and> \<bar>1::real\<bar> = of_int (2 ^ 52) * (1 / 2 ^ 52)
          \<and> \<bar>1::real\<bar> < 2 ^ 53 * (1 / 2 ^ 52) \<and> 2 ^ 52 * (1 / 2 ^ 52) \<le> \<bar>1::real\<bar>"
    using grid_unit_start_up by simp
  then show ?thesis unfolding is_double_def by blast
qed

lemma rnd64_ge_one: "1 \<le> x \<Longrightarrow> 1 \<le> rnd64 x"
  by (rule rnd64_ge [OF is_double_one]) simp_all


lemma rnd64_minus: "rnd64 (- x) = - rnd64 x"
  by (simp add: rnd64_def sgn_minus split: option.split)





text \<open>Rules for running the rounding on numerals: each step of the search for the unit
  is taken only when its test has been decided.\<close>

lemma ulp_up_stop: "x < 2 ^ 53 * u \<Longrightarrow> ulp_up x u = Some u"
  by (subst ulp_up.simps) simp

lemma ulp_up_step: "\<not> x < 2 ^ 53 * u \<Longrightarrow> ulp_up x u = ulp_up x (2 * u)"
  by (subst ulp_up.simps) simp

lemma ulp_down_stop: "2 ^ 52 * u \<le> x \<or> n = 0 \<Longrightarrow> ulp_down x u n = Some u"
  by (subst ulp_down.simps) simp

lemma ulp_down_step:
  "\<not> (2 ^ 52 * u \<le> x \<or> n = 0) \<Longrightarrow> ulp_down x u n = ulp_down x (u / 2) (n - 1)"
  by (subst ulp_down.simps) simp

lemmas rnd64_run =
  rnd64_def ulp_def ulp_up_stop ulp_up_step ulp_down_stop ulp_down_step round_even_def Let_def

lemma float_1e_9_val: "float_1e_9 = 4835703278458517 / 4835703278458516698824704"
  by (simp add: float_1e_9_def rnd64_run)

lemma float_1e_6_val: "float_1e_6 = 4722366482869645 / 4722366482869645213696"
  by (simp add: float_1e_6_def rnd64_run)

lemma rnd64_0: "rnd64 0 = 0"
  by (simp add: rnd64_def)

lemma rnd64_100: "rnd64 100 = 100"
  by (simp add: rnd64_run)

lemma rnd64_1: "rnd64 1 = 1"
  by (simp add: rnd64_run)

lemma float_of_int_0: "float_of_int 0 = Inr 0"
  by (simp add: float_of_int_def rnd64_0)

lemma float_of_int_3: "float_of_int 3 = Inr 3"
  by (simp add: float_of_int_def rnd64_run)

lemma float_of_int_4: "float_of_int 4 = Inr 4"
  by (simp add: float_of_int_def rnd64_run)

lemma float_of_int_5: "float_of_int 5 = Inr 5"
  by (simp add: float_of_int_def rnd64_run)

lemma float_of_int_nonzero:
  assumes "float_of_int m = Inr fm" and "m \<noteq> 0"
  shows "fm \<noteq> 0"
proof -
  from assms(1) have fm: "fm = rnd64 (real_of_int m)"
    by (simp add: float_of_int_def split: if_splits)
  show ?thesis
  proof (cases "0 < m")
    case True
    then have "1 \<le> real_of_int m" by simp
    from rnd64_ge_one [OF this] show ?thesis unfolding fm by simp
  next
    case False
    with assms(2) have "1 \<le> - real_of_int m" by simp
    from rnd64_ge_one [OF this] show ?thesis unfolding fm rnd64_minus by simp
  qed
qed

section \<open>Properties of the slot distributor\<close>

lemma distribute_loop_closed:
  "float_of_int m = Inr fm \<Longrightarrow> fm \<noteq> 0 \<Longrightarrow> distribute_loop ps m (b, s, l, d, ss) =
     Inr (b @ portions ps fm, s @ portions ps fm, l @ portions ps fm, d @ portions ps fm,
          if m = 5 then ss @ portions ps fm else ss)"
  by (induction ps arbitrary: b s l d ss) (auto simp: portions_def Let_def)

lemma distribute_products_closed:
  "float_of_int m = Inr fm \<Longrightarrow> fm \<noteq> 0 \<Longrightarrow> ps \<noteq> [] \<Longrightarrow> distribute_products ps m =
     Inr \<lparr>breakfast = portions ps fm, snack = portions ps fm, lunch = portions ps fm,
          dinner = portions ps fm,
          second_snack = (if m = 5 then Some (portions ps fm) else None)\<rparr>"
  by (simp add: distribute_products_def distribute_loop_closed)

lemma distribute_loop_zero:
  "ps \<noteq> [] \<Longrightarrow> distribute_loop ps 0 acc = Inl ZeroDivisionError"
  by (cases ps; cases acc) (auto simp: float_of_int_0)

lemma distribute_loop_overflow:
  "ps \<noteq> [] \<Longrightarrow> float_of_int m = Inl e \<Longrightarrow> distribute_loop ps m acc = Inl e"
  by (cases ps; cases acc) auto

lemma per_meal_portions: "per_meal ps m = portions ps (real_of_int m)"
  by (simp add: per_meal_def portions_def)

text \<open>
  C8, counterexample. For an empty day and five meals the early return of
  \<^verbatim>\<open>distribute_products\<close> yields a plan without the slot \<^verbatim>\<open>second_snack\<close>, so
  "second_snack present exactly when mealsPerDay = 5" fails for the empty bucket.
\<close>

theorem empty_day_has_no_second_snack:
  "distribute_products [] 5 =
     Inr \<lparr>breakfast = [], snack = [], lunch = [], dinner = [], second_snack = None\<rparr>"
  by (simp add: distribute_products_def)

text \<open>
  C8, as amended. For every non-empty day and \<^verbatim>\<open>meals_count\<close> 4 or 5,
  \<^verbatim>\<open>distribute_products\<close> puts every product of the day, in order, into each of
  breakfast, snack, lunch and dinner at its weight divided by \<^verbatim>\<open>meals_count\<close>, and
  \<^verbatim>\<open>second_snack\<close> holds the same list exactly when \<^verbatim>\<open>meals_count\<close> is 5.
\<close>

theorem equal_slot_division:
  assumes "products \<noteq> []" and "meals_count = 4 \<or> meals_count = 5"
  shows "distribute_products products meals_count =
     Inr \<lparr>breakfast = per_meal products meals_count, snack = per_meal products meals_count,
          lunch = per_meal products meals_count, dinner = per_meal products meals_count,
          second_snack = (if meals_count = 5 then Some (per_meal products meals_count) else None)\<rparr>"
proof -
  from assms(2) have f: "float_of_int meals_count = Inr (real_of_int meals_count)"
    using float_of_int_4 float_of_int_5 by auto
  from assms(2) have "real_of_int meals_count \<noteq> 0" by auto
  from distribute_products_closed [OF f this assms(1)] show ?thesis
    by (simp only: per_meal_portions)
qed

text \<open>C8, witness: 400 g of rice give 100 g per slot for four meals and 80 g per slot for
  five.\<close>

theorem equal_slot_division_witness:
  "distribute_products [(''rice'', 400)] 4 =
     Inr \<lparr>breakfast = [(''rice'', 100)], snack = [(''rice'', 100)], lunch = [(''rice'', 100)],
          dinner = [(''rice'', 100)], second_snack = None\<rparr>
   \<and> distribute_products [(''rice'', 400)] 5 =
     Inr \<lparr>breakfast = [(''rice'', 80)], snack = [(''rice'', 80)], lunch = [(''rice'', 80)],
          dinner = [(''rice'', 80)], second_snack = Some [(''rice'', 80)]\<rparr>"
  using equal_slot_division [of "[(''rice'', 400)]" 4] equal_slot_division [of "[(''rice'', 400)]" 5]
  by (simp add: per_meal_def rnd64_run)

text \<open>
  C6, counterexample. With three meals \<^verbatim>\<open>distribute_products\<close> raises nothing: it
  returns four slots holding a third of each weight.
\<close>

theorem three_meals_accepted:
  "distribute_products [(''rice'', 300)] 3 =
     Inr \<lparr>breakfast = [(''rice'', 100)], snack = [(''rice'', 100)], lunch = [(''rice'', 100)],
          dinner = [(''rice'', 100)], second_snack = None\<rparr>"
  by (simp add: distribute_products_def float_of_int_3 rnd64_100)

text \<open>
  C6, as amended. \<^verbatim>\<open>distribute_products\<close> does not validate \<^verbatim>\<open>meals_count\<close> and has no
  error of its own. For an empty day it returns the empty plan whatever \<^verbatim>\<open>meals_count\<close>
  is. For a day that is not empty, the division of the first weight raises
  \<^verbatim>\<open>ZeroDivisionError\<close> when \<^verbatim>\<open>meals_count\<close> is 0 and \<^verbatim>\<open>OverflowError\<close> when
  \<^verbatim>\<open>meals_count\<close> is too large for a float, from \<open>2 ^ 1024 - 2 ^ 970\<close> on in absolute value;
  for every other value, inside or outside \<open>{4, 5}\<close>, the call returns a plan.
\<close>

theorem no_slot_count_validation:
  "(products = [] \<longrightarrow>
      distribute_products products meals_count =
        Inr \<lparr>breakfast = [], snack = [], lunch = [], dinner = [], second_snack = None\<rparr>)
   \<and> (products \<noteq> [] \<and> meals_count = 0 \<longrightarrow>
      distribute_products products meals_count = Inl ZeroDivisionError)
   \<and> (products \<noteq> [] \<and> 2 ^ 1024 - 2 ^ 970 \<le> \<bar>real_of_int meals_count\<bar> \<longrightarrow>
      distribute_products products meals_count = Inl OverflowError)
   \<and> (meals_count \<noteq> 0 \<and> \<bar>real_of_int meals_count\<bar> < 2 ^ 1024 - 2 ^ 970 \<longrightarrow>
      (\<exists>plan. distribute_products products meals_count = Inr plan))"
proof (intro conjI impI)
  assume "products = []"
  then show "distribute_products products meals_count =
        Inr \<lparr>breakfast = [], snack = [], lunch = [], dinner = [], second_snack = None\<rparr>"
    by (simp add: distribute_products_def)
next
  assume "products \<noteq> [] \<and> meals_count = 0"
  then show "distribute_products products meals_count = Inl ZeroDivisionError"
    by (simp add: distribute_products_def distribute_loop_zero)
next
  assume a: "products \<noteq> [] \<and> 2 ^ 1024 - 2 ^ 970 \<le> \<bar>real_of_int meals_count\<bar>"
  then have "float_of_int meals_count = Inl OverflowError"
    unfolding float_of_int_def by (simp only: if_True)
  with a show "distribute_products products meals_count = Inl OverflowError"
    by (simp add: distribute_products_def distribute_loop_overflow)
next
  assume a: "meals_count \<noteq> 0 \<and> \<bar>real_of_int meals_count\<bar> < 2 ^ 1024 - 2 ^ 970"
  then have "\<not> 2 ^ 1024 - 2 ^ 970 \<le> \<bar>real_of_int meals_count\<bar>" by (simp only: not_le)
  then have f: "float_of_int meals_count = Inr (rnd64 (real_of_int meals_count))"
    unfolding float_of_int_def by (simp only: if_False)
  from float_of_int_nonzero [OF f] a have nz: "rnd64 (real_of_int meals_count) \<noteq> 0" by simp
  show "\<exists>plan. distribute_products products meals_count = Inr plan"
  proof (cases "products = []")
    case True
    then show ?thesis by (simp add: distribute_products_def)
  next
    case False
    from distribute_products_closed [OF f nz False] show ?thesis by blast
  qed
qed

text \<open>C6, witness: three meals, no meals, and a count of \<open>10 ^ 309\<close>.\<close>

theorem no_slot_count_validation_witness:
  "(\<exists>plan. distribute_products [(''rice'', 300)] 3 = Inr plan)
   \<and> distribute_products [(''rice'', 300)] 0 = Inl ZeroDivisionError
   \<and> distribute_products [(''rice'', 300)] (10 ^ 309) = Inl OverflowError"
  using no_slot_count_validation [of "[(''rice'', 300)]" 3]
    no_slot_count_validation [of "[(''rice'', 300)]" 0]
    no_slot_count_validation [of "[(''rice'', 300)]" "10 ^ 309"]
  by simp

text \<open>
  C7, counterexample. \<^verbatim>\<open>distribute_products\<close> filters nothing: applied to a pool with a
  product of weight 0 (the single-day path) it puts that product into every slot.
\<close>

theorem zero_mass_reaches_slots:
  "distribute_products [(''rice'', 0)] 4 =
     Inr \<lparr>breakfast = [(''rice'', 0)], snack = [(''rice'', 0)], lunch = [(''rice'', 0)],
          dinner = [(''rice'', 0)], second_snack = None\<rparr>"
  by (simp add: distribute_products_def float_of_int_4 rnd64_0)

section \<open>Properties of the density resolver\<close>

lemma starts_with_iff: "starts_with xs ys \<longleftrightarrow> prefix xs ys"
  by (induction xs ys rule: starts_with.induct) auto

lemma str_in_iff: "str_in xs ys \<longleftrightarrow> (\<exists>ps ss. ys = ps @ xs @ ss)"
proof (induction ys)
  case Nil
  then show ?case by auto
next
  case (Cons y ys)
  have "sublist xs (y # ys) \<longleftrightarrow> prefix xs (y # ys) \<or> sublist xs ys"
    by (simp add: sublist_Cons_right)
  with Cons show ?case
    by (simp add: starts_with_iff sublist_def)
qed

lemma scan_keys_find:
  "scan_keys q ks = find (\<lambda>k. str_in q k \<or> str_in k q) ks"
  by (induction ks) auto

lemma scan_keys_mem: "scan_keys q ks = Some k \<Longrightarrow> k \<in> set ks"
  by (induction ks) (auto split: if_splits)

lemma find_similar_product_mem:
  "find_similar_product lower db nm = Some k \<Longrightarrow> k \<in> fst ` set db"
  by (auto simp: find_similar_product_def Let_def dest: scan_keys_mem split: if_splits)

lemma calories_per_gram_total: "\<exists>k. calories_per_gram lower db nm = Inr k"
proof (cases "find_similar_product lower db nm")
  case None
  then show ?thesis by (simp add: calories_per_gram_def)
next
  case (Some k)
  then have "k \<in> fst ` set db" by (rule find_similar_product_mem)
  then obtain p where "map_of db k = Some p"
    by (metis domD dom_map_of_conv_image_fst)
  with Some have "calories_per_gram lower db nm
      = Inr (if k = [] then rnd64 (100 / 100) else rnd64 (calories p / 100))"
    by (simp add: calories_per_gram_def)
  then show ?thesis by blast
qed

text \<open>
  C9, counterexample. In a catalog that has the empty string as a key, that key is the
  first one that is a substring of the query \<^verbatim>\<open>rice\<close>, and its entry has 50 kcal per
  100 g; the resolver returns the default 1 kcal per gram instead, because the source
  tests the found key for truth and the empty string is false.
\<close>

theorem empty_key_resolves_to_default:
  "find (\<lambda>k. str_in (ascii_lower ''rice'') k \<or> str_in k (ascii_lower ''rice'')) (map fst empty_key_db) = Some ''''
   \<and> map_of empty_key_db '''' = Some \<lparr>Product.name = '''', calories = 50, protein = 0, fat = 0, carbs = 0\<rparr>
   \<and> calories_per_gram ascii_lower empty_key_db ''rice'' = Inr 1
   \<and> (1::real) \<noteq> 50 / 100"
  by (simp add: empty_key_db_def calories_per_gram_def find_similar_product_def ascii_lower_def
      rnd64_1)

text \<open>
  C9, as amended. For a catalog without an empty key and every query: if the lower-cased
  query is a key, the resolver returns the density of that entry; otherwise the density
  of the first key, in the catalog's order, that contains the lower-cased query or is
  contained in it; otherwise 1 kcal per gram, so that 100 g of such a product count as
  100 kcal. The resolver returns a density in every case.
\<close>

theorem resolution_order:
  assumes "[] \<notin> fst ` set db"
  shows "(lower q \<in> fst ` set db \<longrightarrow>
            (\<exists>p. map_of db (lower q) = Some p
                 \<and> calories_per_gram lower db q = Inr (rnd64 (calories p / 100))))
       \<and> (lower q \<notin> fst ` set db \<longrightarrow>
            (case find (\<lambda>k. str_in (lower q) k \<or> str_in k (lower q)) (map fst db) of
               Some k \<Rightarrow> \<exists>p. map_of db k = Some p
                             \<and> calories_per_gram lower db q = Inr (rnd64 (calories p / 100))
             | None \<Rightarrow> calories_per_gram lower db q = Inr 1
                  \<and> (\<exists>r. make_remaining lower db [(q, 100)] = Inr r \<and> total_kcal r = 100)))"
proof (intro conjI impI)
  assume hit: "lower q \<in> fst ` set db"
  then obtain p where p: "map_of db (lower q) = Some p"
    by (metis domD dom_map_of_conv_image_fst)
  from hit assms have "lower q \<noteq> []" by metis
  with hit p show "\<exists>p. map_of db (lower q) = Some p
                 \<and> calories_per_gram lower db q = Inr (rnd64 (calories p / 100))"
    by (simp add: calories_per_gram_def find_similar_product_def)
next
  assume miss: "lower q \<notin> fst ` set db"
  let ?f = "find (\<lambda>k. str_in (lower q) k \<or> str_in k (lower q)) (map fst db)"
  have fsp: "find_similar_product lower db q = ?f"
    using miss by (simp add: find_similar_product_def scan_keys_find Let_def)
  show "case ?f of
          Some k \<Rightarrow> \<exists>p. map_of db k = Some p
                             \<and> calories_per_gram lower db q = Inr (rnd64 (calories p / 100))
        | None \<Rightarrow> calories_per_gram lower db q = Inr 1
                  \<and> (\<exists>r. make_remaining lower db [(q, 100)] = Inr r \<and> total_kcal r = 100)"
  proof (cases ?f)
    case None
    with fsp show ?thesis
      by (simp add: calories_per_gram_def total_kcal_def rnd64_100 rnd64_1)
  next
    case (Some k)
    with fsp have "k \<in> fst ` set db" by (metis find_similar_product_mem)
    then obtain p where p: "map_of db k = Some p"
      by (metis domD dom_map_of_conv_image_fst)
    from \<open>k \<in> fst ` set db\<close> assms have "k \<noteq> []" by metis
    with Some fsp p show ?thesis
      by (simp add: calories_per_gram_def)
  qed
qed

text \<open>C9, witness: an exact match, a substring match and a miss.\<close>

theorem resolution_order_witness:
  "[] \<notin> fst ` set example_db
   \<and> calories_per_gram ascii_lower example_db ''RICE'' = Inr (rnd64 (344 / 100))
   \<and> calories_per_gram ascii_lower example_db ''Fried chicken'' = Inr (rnd64 (165 / 100))
   \<and> calories_per_gram ascii_lower example_db ''tofu'' = Inr 1"
  using resolution_order [of example_db ascii_lower "''RICE''"]
        resolution_order [of example_db ascii_lower "''Fried chicken''"]
        resolution_order [of example_db ascii_lower "''tofu''"]
  by (simp add: example_db_def ascii_lower_def)

section \<open>Properties of the planner\<close>

lemmas planner_run =
  plan_day_def total_kcal_def loop_done_def float_1e_9_val float_1e_6_val rnd64_run

lemma write_off_fst:
  "fst (write_off assigned remaining) =
     map (\<lambda>it. (name it, charged assigned it)) (filter (\<lambda>it. 0 < charged assigned it) remaining)"
  by (induction remaining) (auto simp: charged_def Let_def split: prod.splits)

lemma write_off_snd:
  "snd (write_off assigned remaining) =
     map (\<lambda>it. if 0 < charged assigned it
               then it\<lparr>weight := settle (rnd64 (weight it - charged assigned it))\<rparr> else it) remaining"
  by (induction remaining) (auto simp: charged_def settle_def Let_def split: prod.splits)

lemma plan_day_cases:
  "plan_day cap remaining = Inl ZeroDivisionError
   \<or> (\<exists>assigned. plan_day cap remaining = Inr (write_off assigned remaining))"
  by (auto simp: plan_day_def Let_def)

lemma plan_day_InrD:
  assumes "plan_day cap remaining = Inr (day, remaining')"
  obtains assigned where "day = fst (write_off assigned remaining)"
    and "remaining' = snd (write_off assigned remaining)"
  using plan_day_cases [of cap remaining] assms by (metis Inl_Inr_False fst_conv snd_conv sum.inject(2))

lemma plan_loop_invariant:
  assumes run: "plan_loop cap remaining days = Some (Inr res)"
    and init: "I remaining days"
    and step: "\<And>r d day r'. I r d \<Longrightarrow> \<not> loop_done r \<Longrightarrow> plan_day cap r = Inr (day, r')
                 \<Longrightarrow> I r' (d @ [day])"
  shows "\<exists>r. I r res \<and> loop_done r"
proof -
  have "c = cap \<longrightarrow> I r d \<longrightarrow> (\<forall>res. y = Inr res \<longrightarrow> (\<exists>r'. I r' res \<and> loop_done r'))"
    if "plan_loop c r d = Some y" for c r d y
    using that
  proof (rule plan_loop.raw_induct [rotated], goal_cases)
    case (1 f c r d y)
    note ih = 1(1) and eq = 1(2)
    show ?case
    proof (intro impI allI)
      fix res assume c: "c = cap" and i: "I r d" and y: "y = Inr res"
      show "\<exists>r'. I r' res \<and> loop_done r'"
      proof (cases "loop_done r")
        case True
        with eq y i show ?thesis by auto
      next
        case False
        show ?thesis
        proof (cases "plan_day c r")
          case (Inl e)
          with False eq y show ?thesis by simp
        next
          case (Inr p)
          obtain day r' where p: "p = (day, r')" by (cases p)
          from False Inr p eq have "f c r' (d @ [day]) = Some y" by simp
          moreover from step [OF i False] Inr p c have "I r' (d @ [day])" by simp
          ultimately show ?thesis using ih c y by blast
        qed
      qed
    qed
  qed
  with run init show ?thesis by blast
qed

lemma passes_plan_loop:
  "passes n cap remaining days = Inr (r, d) \<Longrightarrow> loop_done r
     \<Longrightarrow> plan_loop cap remaining days = Some (Inr d)"
proof (induction n arbitrary: remaining days)
  case 0
  then show ?case by (simp add: plan_loop.simps)
next
  case (Suc n)
  show ?case
  proof (cases "loop_done remaining")
    case True
    with Suc.prems show ?thesis by (simp add: plan_loop.simps)
  next
    case False
    with Suc.prems obtain day r' where pd: "plan_day cap remaining = Inr (day, r')"
      and rest: "passes n cap r' (days @ [day]) = Inr (r, d)"
      by (auto split: sum.splits)
    from Suc.IH [OF rest Suc.prems(2)] False pd show ?thesis
      by (subst plan_loop.simps) simp
  qed
qed

lemma make_remaining_closed:
  "make_remaining lower db products =
     Inr (map (\<lambda>(nm, w). \<lparr>name = nm, weight = w,
                          kcal_per_g = projr (calories_per_gram lower db nm)\<rparr>)
              (filter (\<lambda>(nm, w). 0 < w) products))"
proof (induction products)
  case Nil
  then show ?case by simp
next
  case (Cons p ps)
  obtain nm w where p: "p = (nm, w)" by (cases p)
  obtain k where k: "calories_per_gram lower db nm = Inr k"
    using calories_per_gram_total by blast
  with Cons p show ?case by simp
qed




lemma rice_only_step: "plan_day 0 rice_only = Inr ([], rice_only)"
  by (simp add: rice_only_def planner_run cong: let_weak_cong)

lemma rice_only_not_done: "\<not> loop_done rice_only"
  by (simp add: rice_only_def planner_run)

lemma rice_only_diverges: "plan_loop 0 rice_only days = None"
proof -
  have "\<not> (c = 0 \<and> r = rice_only)" if "plan_loop c r d = Some y" for c r d y
    using that
  proof (rule plan_loop.raw_induct [rotated], goal_cases)
    case (1 f c r d y)
    show ?case
    proof
      assume "c = 0 \<and> r = rice_only"
      with 1(2) have "f 0 rice_only (d @ [[]]) = Some y"
        by (simp add: rice_only_step rice_only_not_done)
      with 1(1) show False by blast
    qed
  qed
  then show ?thesis by (cases "plan_loop 0 rice_only days") auto
qed

text \<open>
  C4, the run at a failing input. With \<^verbatim>\<open>daily_calories = 0\<close> and
  \<^verbatim>\<open>calorie_excess_cap = 0\<close> nothing is rejected: every pass of the loop assigns nothing,
  appends an empty day and leaves \<^verbatim>\<open>remaining\<close> as it was, so the call never returns.
\<close>

theorem zero_capacity_never_returns:
  "create_multi_day_plan ascii_lower example_db [(''rice'', 100)] 0 4 0 = None"
proof -
  have "make_remaining ascii_lower example_db [(''rice'', 100)] = Inr rice_only"
    by (simp add: rice_only_def example_db_def calories_per_gram_def find_similar_product_def
        ascii_lower_def)
  then show ?thesis
    by (simp add: create_multi_day_plan_def day_buckets_def float_of_int_0 rice_only_diverges)
qed

lemma distribute_products_names:
  assumes "distribute_products ps m = Inr plan" and "(n, g) \<in> slot_entries plan"
  shows "\<exists>w. (n, w) \<in> set ps"
proof (cases "ps = []")
  case True
  with assms show ?thesis
    by (auto simp: distribute_products_def slot_entries_def)
next
  case False
  show ?thesis
  proof (cases "float_of_int m")
    case (Inl e)
    with False assms(1) show ?thesis
      by (simp add: distribute_products_def distribute_loop_overflow)
  next
    case (Inr fm)
    show ?thesis
    proof (cases "fm = 0")
      case True
      with Inr have "m = 0" using float_of_int_nonzero by blast
      with False assms(1) show ?thesis
        by (simp add: distribute_products_def distribute_loop_zero)
    next
      case nz: False
      from distribute_products_closed [OF Inr nz False] assms show ?thesis
        by (auto simp: slot_entries_def portions_def split: if_splits)
    qed
  qed
qed

lemma distribute_days_names:
  "distribute_days days m = Inr plans \<Longrightarrow> plan \<in> set plans \<Longrightarrow> (n, g) \<in> slot_entries plan
     \<Longrightarrow> \<exists>b w. b \<in> set days \<and> (n, w) \<in> set b"
proof (induction days arbitrary: plans)
  case Nil
  then show ?case by simp
next
  case (Cons b bs)
  from Cons.prems(1) obtain p ps where p: "distribute_products b m = Inr p"
    and ps: "distribute_days bs m = Inr ps" and plans: "plans = p # ps"
    by (auto split: sum.splits)
  show ?case
  proof (cases "plan = p")
    case True
    with p Cons.prems(3) distribute_products_names show ?thesis by fastforce
  next
    case False
    with plans Cons.prems(2) have "plan \<in> set ps" by simp
    from Cons.IH [OF ps this Cons.prems(3)] show ?thesis by auto
  qed
qed

lemma write_off_entry:
  assumes "(n, g) \<in> set (fst (write_off a r))"
  shows "0 < g \<and> (\<exists>it\<in>set r. name it = n \<and> g \<le> weight it)"
proof -
  from assms obtain it where it: "it \<in> set r" "0 < charged a it" "n = name it" "g = charged a it"
    by (auto simp: write_off_fst)
  from it(2) have "charged a it \<le> weight it" by (simp add: charged_def split: if_splits)
  with it show ?thesis by auto
qed

lemma write_off_names: "map name (snd (write_off a r)) = map name r"
  by (simp add: write_off_snd comp_def)

lemma write_off_snd_mem:
  assumes "it' \<in> set (snd (write_off a r))"
  shows "\<exists>it\<in>set r. name it' = name it \<and> kcal_per_g it' = kcal_per_g it"
  using assms by (auto simp: write_off_snd)

lemma day_buckets_entries:
  assumes "day_buckets lower db products d e = Some (Inr days)"
    and "b \<in> set days" and "(n, g) \<in> set b"
  shows "0 < g \<and> (\<exists>w. (n, w) \<in> set products \<and> 0 < w)"
proof -
  define N where "N = {n. \<exists>w::real. (n, w) \<in> set products \<and> 0 < w}"
  define Q where "Q = (\<lambda>b::bucket. \<forall>p\<in>set b. 0 < snd p \<and> fst p \<in> N)"
  define I where "I = (\<lambda>(r::item list) (ds::bucket list).
      (\<forall>it\<in>set r. name it \<in> N) \<and> (\<forall>b\<in>set ds. Q b))"
  obtain r0 where r0: "make_remaining lower db products = Inr r0"
    and r0_def: "r0 = map (\<lambda>(nm, w). \<lparr>name = nm, weight = w,
                          kcal_per_g = projr (calories_per_gram lower db nm)\<rparr>)
              (filter (\<lambda>(nm, w). 0 < w) products)"
    using make_remaining_closed by blast
  from assms(1) r0 obtain cap where run: "plan_loop cap r0 [] = Some (Inr days)"
    by (auto simp: day_buckets_def split: sum.splits)
  have init: "I r0 []" by (auto simp: I_def N_def r0_def)
  have "\<exists>r. I r days \<and> loop_done r"
  proof (rule plan_loop_invariant [OF run, where I = I, OF init])
    fix r ds day r'
    assume i: "I r ds" and pd: "plan_day cap r = Inr (day, r')"
    from pd obtain a where day: "day = fst (write_off a r)" and r': "r' = snd (write_off a r)"
      by (rule plan_day_InrD)
    have 1: "\<forall>it\<in>set r'. name it \<in> N"
    proof
      fix it' assume "it' \<in> set r'"
      then obtain it where "it \<in> set r" "name it' = name it"
        unfolding r' using write_off_snd_mem by blast
      with i show "name it' \<in> N" unfolding I_def by simp
    qed
    have 2: "Q day"
      unfolding Q_def
    proof
      fix p assume "p \<in> set day"
      then have "(fst p, snd p) \<in> set (fst (write_off a r))" by (simp add: day)
      from write_off_entry [OF this] i show "0 < snd p \<and> fst p \<in> N"
        unfolding I_def by auto
    qed
    from 1 2 i show "I r' (ds @ [day])" unfolding I_def by simp
  qed
  then have "Q b" using assms(2) unfolding I_def by blast
  with assms(3) show ?thesis unfolding Q_def N_def by force
qed

text \<open>
  C7, as amended. Every entry of every day built by \<^verbatim>\<open>create_multi_day_plan\<close> has a
  positive weight and the name of a product of the pool with positive weight, and every
  entry of every slot it returns has such a name: a product of weight 0 appears in no
  day and in no slot of the multi-day plan.
\<close>

theorem multi_day_zero_mass_filtered:
  "(day_buckets lower db products d e = Some (Inr days) \<longrightarrow>
      (\<forall>b\<in>set days. \<forall>(n, g)\<in>set b. 0 < g \<and> (\<exists>w. (n, w) \<in> set products \<and> 0 < w)))
   \<and> (create_multi_day_plan lower db products d m e = Some (Inr plans) \<longrightarrow>
      (\<forall>plan\<in>set plans. \<forall>(n, g)\<in>slot_entries plan. \<exists>w. (n, w) \<in> set products \<and> 0 < w))"
proof (intro conjI impI)
  assume "day_buckets lower db products d e = Some (Inr days)"
  then show "\<forall>b\<in>set days. \<forall>(n, g)\<in>set b. 0 < g \<and> (\<exists>w. (n, w) \<in> set products \<and> 0 < w)"
    using day_buckets_entries by blast
next
  assume cm: "create_multi_day_plan lower db products d m e = Some (Inr plans)"
  then obtain ds where ds: "day_buckets lower db products d e = Some (Inr ds)"
    and pl: "distribute_days ds m = Inr plans"
    by (auto simp: create_multi_day_plan_def split: option.splits sum.splits)
  show "\<forall>plan\<in>set plans. \<forall>(n, g)\<in>slot_entries plan. \<exists>w. (n, w) \<in> set products \<and> 0 < w"
  proof (intro ballI, clarify)
    fix plan n g assume "plan \<in> set plans" "(n, g) \<in> slot_entries plan"
    with distribute_days_names [OF pl] obtain b w where "b \<in> set ds" "(n, w) \<in> set b" by blast
    with day_buckets_entries [OF ds] show "\<exists>w. (n, w) \<in> set products \<and> 0 < w" by blast
  qed
qed

text \<open>C7, witness: water of weight 0 beside 100 g of rice.\<close>

theorem multi_day_zero_mass_filtered_witness:
  "day_buckets ascii_lower example_db [(''water'', 0), (''rice'', 100)] 2000 0
     = Some (Inr [[(''rice'', 100)]])
   \<and> (\<exists>w. (''rice'', w) \<in> set [(''water'', 0 :: real), (''rice'', 100)] \<and> 0 < w)"
proof -
  have run: "day_buckets ascii_lower example_db [(''water'', 0), (''rice'', 100)] 2000 0
     = Some (Inr [[(''rice'', 100)]])"
  proof -
    have "float_of_int (2000 + 0) = Inr 2000"
      by (simp add: float_of_int_def rnd64_run)
    then show ?thesis
      by (simp add: day_buckets_def example_db_def calories_per_gram_def
        find_similar_product_def ascii_lower_def plan_loop.simps planner_run
        cong: let_weak_cong)
  qed
  with multi_day_zero_mass_filtered [of ascii_lower example_db
      "[(''water'', 0), (''rice'', 100)]" 2000 0 "[[(''rice'', 100)]]"]
  have "\<forall>b\<in>set [[(''rice'', 100 :: real)]]. \<forall>(n, g)\<in>set b.
        0 < g \<and> (\<exists>w. (n, w) \<in> set [(''water'', 0 :: real), (''rice'', 100)] \<and> 0 < w)"
    by blast
  then have "\<exists>w. (''rice'', w) \<in> set [(''water'', 0 :: real), (''rice'', 100)] \<and> 0 < w"
    by simp
  with run show ?thesis by blast
qed

section \<open>The bookkeeping of weights\<close>
























section \<open>The capacity of a day\<close>








section \<open>Termination of the loop and conservation of weight\<close>








end
